theory Spec2Isabelle
  imports Complex_Main
begin

section \<open>Data model\<close>

text \<open>
  The scheduling core of the grid auto-clicker (\<^verbatim>\<open>src/v2/autoclicker_grid_V2.py\<close>, with the
  earlier script \<^verbatim>\<open>src/v1/autoclicker_grid.py\<close> and \<^verbatim>\<open>src/v1/autoclicker_grid_V1.py\<close> where they
  differ). Python's unbounded \<^verbatim>\<open>int\<close> is \<^typ>\<open>int\<close>. Timestamps and durations are Python
  floats in the source; here they are exact reals, so rounding of floating-point arithmetic
  is outside the model.
\<close>

datatype error = ZeroDivisionError | KeyError | TypeError

datatype key = Esc | F8 | F9

type_synonym position = "int \<times> int"

record grid_config =
  origin_x :: int
  origin_y :: int
  step_x :: int
  step_y :: int
  rows :: int
  cols :: int
  offset_dx :: int
  offset_dy :: int
  random_offset_px :: int

record timing_config =
  cooldown_seconds :: real
  always_second_click :: bool
  click_delay :: real
  between_positions_delay :: real
  click_delay_jitter :: real
  between_positions_jitter :: real

text \<open>
  \<^verbatim>\<open>CounterConfig\<close>: the fields the scheduler reads. The remaining fields
  (\<^verbatim>\<open>start_full_grown\<close>, \<^verbatim>\<open>stats_window\<close>, \<^verbatim>\<open>cost_per_cycle\<close>, \<^verbatim>\<open>reward_per_cycle\<close>,
  \<^verbatim>\<open>coin_goal\<close>) only feed log lines and the dashboard.
\<close>

record counter_config =
  start_cycles_done :: int
  target_cycles :: "int option"
  pause_at_cycles :: "int option"
  stop_after_minutes :: "real option"
  pause_after_minutes :: "real option"
  clicks_per_cycle :: int

record app_state =
  grid :: grid_config
  timing :: timing_config
  counters :: counter_config

text \<open>
  The module globals together with the environment the scheduling thread observes.
  \<^item> \<open>clock\<close> is the reading of \<^verbatim>\<open>time.monotonic()\<close>; it advances only in \<^verbatim>\<open>time.sleep\<close>
    (computation between sleeps takes no time, and a sleep lasts exactly as long as asked).
  \<^item> \<open>keys\<close> is the controller thread: the key presses still to come, each with the time
    at which the hot-key listener receives it, in time order.
  \<^item> \<open>randoms\<close> is the pseudo-random generator: the values in \<open>[0, 1)\<close> it will yield.
  \<^item> \<open>clicked\<close> logs every \<^verbatim>\<open>pyautogui.click(x, y)\<close> with the clock reading at which it
    happens, oldest first.
\<close>

record world =
  clock :: real
  keys :: "(real \<times> key) list"
  randoms :: "real list"
  clicked :: "(real \<times> int \<times> int) list"
  stop_event :: bool
  pause_event :: bool
  session_clicks :: int
  session_cycles_added :: int
  session_pause_time :: real
  session_active_time :: real
  per_position_clicks :: "position \<rightharpoonup> int"
  run_start_time :: "real option"
  current_position :: "position option"
  cycle_times :: "real list"

section \<open>Control signals and the clock\<close>

text \<open>\<^verbatim>\<open>on_key_press\<close>: ESC sets the stop flag, F8 toggles pause, F9 (calibration) touches
  neither flag.\<close>

fun on_key_press :: "key \<Rightarrow> world \<Rightarrow> world" where
  "on_key_press Esc w = w\<lparr>stop_event := True\<rparr>"
| "on_key_press F8 w = (if pause_event w then w\<lparr>pause_event := False\<rparr> else w\<lparr>pause_event := True\<rparr>)"
| "on_key_press F9 w = w"

text \<open>The listener thread handles, in order, every key press whose time has come.\<close>

fun listener :: "(real \<times> key) list \<Rightarrow> world \<Rightarrow> world" where
  "listener [] w = w\<lparr>keys := []\<rparr>"
| "listener ((t, k) # ks) w =
     (if t \<le> clock w then listener ks (on_key_press k w) else w\<lparr>keys := (t, k) # ks\<rparr>)"

text \<open>\<^verbatim>\<open>time.sleep(dt)\<close> for \<open>dt \<ge> 0\<close> (Python raises \<^verbatim>\<open>ValueError\<close> on a negative
  argument; every call site passes the defaults \<open>0.05\<close> and \<open>0.1\<close>).\<close>

definition time_sleep :: "real \<Rightarrow> world \<Rightarrow> world" where
  "time_sleep dt w = listener (keys w) (w\<lparr>clock := clock w + dt\<rparr>)"

section \<open>Randomness and the click\<close>

definition next_random :: "world \<Rightarrow> real \<times> world" where
  "next_random w = (case randoms w of [] \<Rightarrow> (0, w) | u # us \<Rightarrow> (u, w\<lparr>randoms := us\<rparr>))"

definition random_uniform :: "real \<Rightarrow> real \<Rightarrow> world \<Rightarrow> real \<times> world" where
  "random_uniform a b w = (case next_random w of (u, w') \<Rightarrow> (a + (b - a) * u, w'))"

definition random_randint :: "int \<Rightarrow> int \<Rightarrow> world \<Rightarrow> int \<times> world" where
  "random_randint a b w =
     (case next_random w of (u, w') \<Rightarrow> (a + \<lfloor>u * of_int (b - a + 1)\<rfloor>, w'))"

definition jittered :: "real \<Rightarrow> real \<Rightarrow> world \<Rightarrow> real \<times> world" where
  "jittered base jitter w =
     (if jitter \<le> 0 then (max 0 base, w)
      else case random_uniform (- jitter) jitter w of (u, w') \<Rightarrow> (max 0 (base + u), w'))"

definition random_offset :: "int \<Rightarrow> world \<Rightarrow> (int \<times> int) \<times> world" where
  "random_offset px w =
     (if px \<le> 0 then ((0, 0), w)
      else case random_randint (- px) px w of (dx, w1) \<Rightarrow>
           case random_randint (- px) px w1 of (dy, w2) \<Rightarrow> ((dx, dy), w2))"

definition pyautogui_click :: "int \<Rightarrow> int \<Rightarrow> world \<Rightarrow> world" where
  "pyautogui_click x y w = w\<lparr>clicked := clicked w @ [(clock w, x, y)]\<rparr>"

section \<open>Interruptible wait\<close>

text \<open>
  Both loops may run forever (paused and never resumed), so they carry fuel: \<open>None\<close> means
  the call has not returned within the fuel given.
\<close>

fun wait_loop :: "nat \<Rightarrow> real \<Rightarrow> world \<Rightarrow> world option" where
  "wait_loop 0 step w = None"
| "wait_loop (Suc n) step w =
     (if pause_event w \<and> \<not> stop_event w then wait_loop n step (time_sleep step w)
      else Some w)"

text \<open>\<^verbatim>\<open>wait_if_paused(step)\<close>: blocks while paused, returns the time spent paused.\<close>

definition wait_if_paused :: "nat \<Rightarrow> real \<Rightarrow> world \<Rightarrow> (real \<times> world) option" where
  "wait_if_paused n step w =
     (let pause_start = clock w in
      case wait_loop n step w of
        None \<Rightarrow> None
      | Some w' \<Rightarrow> Some (clock w' - pause_start, w'))"

text \<open>The \<^verbatim>\<open>while time.monotonic() < end\<close> loop of \<^verbatim>\<open>sleep_interruptible\<close>, with its
  locals \<^verbatim>\<open>end\<close> and \<open>total_pause\<close>.\<close>

fun sleep_loop :: "nat \<Rightarrow> real \<Rightarrow> real \<Rightarrow> real \<Rightarrow> world \<Rightarrow> (real \<times> world) option" where
  "sleep_loop 0 step end_time total_pause w = None"
| "sleep_loop (Suc n) step end_time total_pause w =
     (if clock w < end_time then
        if stop_event w then Some (total_pause, w)
        else if pause_event w then
          (case wait_if_paused n (max step 0.1) w of
             None \<Rightarrow> None
           | Some (pause_duration, w') \<Rightarrow>
               sleep_loop n step (end_time + pause_duration) (total_pause + pause_duration)
                 (w'\<lparr>session_pause_time := session_pause_time w' + pause_duration\<rparr>))
        else sleep_loop n step end_time total_pause (time_sleep step w)
      else Some (total_pause, w))"

definition sleep_interruptible :: "nat \<Rightarrow> real \<Rightarrow> real \<Rightarrow> world \<Rightarrow> (real \<times> world) option" where
  "sleep_interruptible n seconds step w = sleep_loop n step (clock w + seconds) 0 w"

section \<open>Visit counting and the threshold rule\<close>

text \<open>Python's \<^verbatim>\<open>a % b\<close> on integers: \<^verbatim>\<open>ZeroDivisionError\<close> for \<open>b = 0\<close>, otherwise the
  remainder with the sign of the divisor, which is \<open>mod\<close> on \<^typ>\<open>int\<close>.\<close>

definition py_mod :: "int \<Rightarrow> int \<Rightarrow> error + int" where
  "py_mod a b = (if b = 0 then Inl ZeroDivisionError else Inr (a mod b))"

text \<open>\<^verbatim>\<open>should_count_cycle\<close> (V2):
  \<^verbatim>\<open>n = max(1, int(counter_cfg.clicks_per_cycle)); return ((position_click_count - 1) % n) == 0\<close>.\<close>

definition should_count_cycle :: "int \<Rightarrow> counter_config \<Rightarrow> error + bool" where
  "should_count_cycle position_click_count counter_cfg =
     (let n = max 1 (clicks_per_cycle counter_cfg) in
      case py_mod (position_click_count - 1) n of
        Inl e \<Rightarrow> Inl e
      | Inr m \<Rightarrow> Inr (m = 0))"

text \<open>\<^verbatim>\<open>should_consume_shovel\<close> (\<^verbatim>\<open>autoclicker_grid_V1.py\<close>) is the same test on the field
  \<^verbatim>\<open>harvests_per_shovel\<close>, which is passed here as a number.\<close>

definition should_consume_shovel :: "int \<Rightarrow> int \<Rightarrow> error + bool" where
  "should_consume_shovel tile_harvest_count harvests_per_shovel =
     (let n = max 1 harvests_per_shovel in
      case py_mod (tile_harvest_count - 1) n of
        Inl e \<Rightarrow> Inl e
      | Inr m \<Rightarrow> Inr (m = 0))"

text \<open>The test written inline in \<^verbatim>\<open>run_cycles\<close> of \<^verbatim>\<open>autoclicker_grid.py\<close>:
  \<^verbatim>\<open>(tile_h - 1) % HARVESTS_PER_SHOVEL == 0\<close>, with no clamp of the constant.\<close>

definition shovel_test_v1 :: "int \<Rightarrow> int \<Rightarrow> error + bool" where
  "shovel_test_v1 tile_h HARVESTS_PER_SHOVEL =
     (case py_mod (tile_h - 1) HARVESTS_PER_SHOVEL of
        Inl e \<Rightarrow> Inl e
      | Inr m \<Rightarrow> Inr (m = 0))"

section \<open>Threshold policy\<close>

text \<open>\<^verbatim>\<open>x is not None and v >= x\<close> for an optional limit \<open>x\<close>.\<close>

definition reached :: "'a::linorder option \<Rightarrow> 'a \<Rightarrow> bool" where
  "reached limit v = (case limit of None \<Rightarrow> False | Some x \<Rightarrow> x \<le> v)"

text \<open>\<^verbatim>\<open>maybe_pause_or_stop\<close> (V2); the four rules in the order of the source, each ending
  in \<^verbatim>\<open>return\<close>.\<close>

definition maybe_pause_or_stop :: "counter_config \<Rightarrow> int \<Rightarrow> world \<Rightarrow> world" where
  "maybe_pause_or_stop counter_cfg base_cycles_done w =
     (case run_start_time w of
        None \<Rightarrow> w
      | Some started \<Rightarrow>
          let elapsed_minutes = (clock w - started) / 60;
              total_cycles_done = base_cycles_done + session_cycles_added w
          in if reached (target_cycles counter_cfg) total_cycles_done then w\<lparr>stop_event := True\<rparr>
             else if reached (stop_after_minutes counter_cfg) elapsed_minutes
               then w\<lparr>stop_event := True\<rparr>
             else if reached (pause_at_cycles counter_cfg) total_cycles_done
               then (if \<not> pause_event w then w\<lparr>pause_event := True\<rparr> else w)
             else if reached (pause_after_minutes counter_cfg) elapsed_minutes
               then (if \<not> pause_event w then w\<lparr>pause_event := True\<rparr> else w)
             else w)"

text \<open>The module constants of \<^verbatim>\<open>autoclicker_grid.py\<close> that its policy reads.\<close>

record limits_v1 =
  STOP_AFTER_HARVESTS :: "int option"
  PAUSE_AFTER_HARVESTS :: "int option"
  STOP_AFTER_MINUTES :: "real option"
  PAUSE_AFTER_MINUTES :: "real option"
  STOP_AFTER_SHOVELS :: "int option"
  PAUSE_AFTER_SHOVELS :: "int option"

text \<open>\<^verbatim>\<open>maybe_pause_or_stop\<close> of \<^verbatim>\<open>autoclicker_grid.py\<close>; the globals \<^verbatim>\<open>total_harvests\<close> and
  \<^verbatim>\<open>total_shovels\<close> are only read.\<close>

definition maybe_pause_or_stop_v1 :: "limits_v1 \<Rightarrow> int \<Rightarrow> int \<Rightarrow> world \<Rightarrow> world" where
  "maybe_pause_or_stop_v1 cfg total_harvests total_shovels w =
     (case run_start_time w of
        None \<Rightarrow> w
      | Some started \<Rightarrow>
          let elapsed_minutes = (clock w - started) / 60
          in if reached (STOP_AFTER_HARVESTS cfg) total_harvests then w\<lparr>stop_event := True\<rparr>
             else if reached (STOP_AFTER_MINUTES cfg) elapsed_minutes then w\<lparr>stop_event := True\<rparr>
             else if reached (STOP_AFTER_SHOVELS cfg) total_shovels then w\<lparr>stop_event := True\<rparr>
             else if reached (PAUSE_AFTER_HARVESTS cfg) total_harvests
               then (if \<not> pause_event w then w\<lparr>pause_event := True\<rparr> else w)
             else if reached (PAUSE_AFTER_MINUTES cfg) elapsed_minutes
               then (if \<not> pause_event w then w\<lparr>pause_event := True\<rparr> else w)
             else if reached (PAUSE_AFTER_SHOVELS cfg) total_shovels
               then (if \<not> pause_event w then w\<lparr>pause_event := True\<rparr> else w)
             else w)"

section \<open>The interruptible wait of the first script\<close>

text \<open>\<^verbatim>\<open>sleep_interruptible\<close> of \<^verbatim>\<open>autoclicker_grid.py\<close> returns nothing; it measures the pause
  itself (\<^verbatim>\<open>t_pause\<close>) and only moves the deadline.\<close>

fun sleep_loop_v1 :: "nat \<Rightarrow> real \<Rightarrow> real \<Rightarrow> world \<Rightarrow> world option" where
  "sleep_loop_v1 0 step end_time w = None"
| "sleep_loop_v1 (Suc n) step end_time w =
     (if clock w < end_time then
        if stop_event w then Some w
        else if pause_event w then
          (let t_pause = clock w in
           case wait_loop n (max step 0.1) w of
             None \<Rightarrow> None
           | Some w' \<Rightarrow> sleep_loop_v1 n step (end_time + (clock w' - t_pause)) w')
        else sleep_loop_v1 n step end_time (time_sleep step w)
      else Some w)"

definition sleep_interruptible_v1 :: "nat \<Rightarrow> real \<Rightarrow> real \<Rightarrow> world \<Rightarrow> world option" where
  "sleep_interruptible_v1 n seconds step w = sleep_loop_v1 n step (clock w + seconds) w"

section \<open>The sweep engine\<close>

text \<open>\<^verbatim>\<open>click_position\<close> (V2). The defaults \<^verbatim>\<open>wait_if_paused(step=0.1)\<close> and
  \<^verbatim>\<open>sleep_interruptible(step=0.05)\<close> are written out.\<close>

definition between_positions :: "nat \<Rightarrow> timing_config \<Rightarrow> world \<Rightarrow> world option" where
  "between_positions n timing_cfg w =
     (case jittered (between_positions_delay timing_cfg) (between_positions_jitter timing_cfg) w of
        (between, w') \<Rightarrow> map_option snd (sleep_interruptible n between 0.05 w'))"

definition click_position ::
  "nat \<Rightarrow> int \<Rightarrow> int \<Rightarrow> grid_config \<Rightarrow> timing_config \<Rightarrow> world \<Rightarrow> world option" where
  "click_position n center_x center_y grid_cfg timing_cfg w =
     (if stop_event w then Some w
      else case wait_if_paused n 0.1 w of
        None \<Rightarrow> None
      | Some (_, w1) \<Rightarrow>
          (case random_offset (random_offset_px grid_cfg) w1 of
             ((dx, dy), w2) \<Rightarrow>
               let x = center_x + dx; y = center_y + dy; w3 = pyautogui_click x y w2 in
               if stop_event w3 then Some w3
               else if always_second_click timing_cfg then
                 (case jittered (click_delay timing_cfg) (click_delay_jitter timing_cfg) w3 of
                    (interval, w4) \<Rightarrow>
                      (case sleep_interruptible n interval 0.05 w4 of
                         None \<Rightarrow> None
                       | Some (_, w5) \<Rightarrow>
                           if stop_event w5 then Some w5
                           else (case wait_if_paused n 0.1 w5 of
                                   None \<Rightarrow> None
                                 | Some (_, w6) \<Rightarrow>
                                     between_positions n timing_cfg (pyautogui_click x y w6))))
               else between_positions n timing_cfg w3))"

text \<open>The per-tile cooldown table \<^verbatim>\<open>ready_at\<close> is a local dict of \<^verbatim>\<open>run_cycles\<close>.
  \<^verbatim>\<open>wait = ready_at[(r, c)] - now\<close>; the position is visited at once unless \<^verbatim>\<open>wait > 0\<close>.\<close>

type_synonym cooldowns = "position \<rightharpoonup> real"

definition wait_for :: "cooldowns \<Rightarrow> position \<Rightarrow> real \<Rightarrow> error + real" where
  "wait_for ready_at p now = (case ready_at p of None \<Rightarrow> Inl KeyError | Some t \<Rightarrow> Inr (t - now))"

text \<open>\<^verbatim>\<open>ready_at[(r, c)] = time.monotonic() + float(timing.cooldown_seconds)\<close>.\<close>

definition mark_ready_at :: "cooldowns \<Rightarrow> position \<Rightarrow> real \<Rightarrow> real \<Rightarrow> cooldowns" where
  "mark_ready_at ready_at p now cooldown = ready_at(p \<mapsto> now + cooldown)"

text \<open>The body of the position loop after \<^verbatim>\<open>click_position\<close> has returned: count the
  click, apply the cycle rule and the policy, and start the cooldown. The boolean says
  whether the loop was left by \<^verbatim>\<open>break\<close>.\<close>

definition count_click ::
  "app_state \<Rightarrow> int \<Rightarrow> int \<Rightarrow> cooldowns \<times> world \<Rightarrow> error + bool \<times> cooldowns \<times> world" where
  "count_click st r c s =
     (let ready_at = fst s; w = snd s;
          counter_cfg = counters st;
          base_cycles_done = start_cycles_done counter_cfg;
          w1 = w\<lparr>session_clicks := session_clicks w + 1\<rparr> in
      case per_position_clicks w1 (r, c) of
        None \<Rightarrow> Inl KeyError
      | Some k \<Rightarrow>
          let pos_clicks = k + 1;
              w2 = w1\<lparr>per_position_clicks := (per_position_clicks w1)((r, c) \<mapsto> pos_clicks)\<rparr> in
          (case should_count_cycle pos_clicks counter_cfg of
             Inl e \<Rightarrow> Inl e
           | Inr counts \<Rightarrow>
               let w3 = (if counts then w2\<lparr>session_cycles_added := session_cycles_added w2 + 1\<rparr>
                         else w2);
                   w4 = maybe_pause_or_stop counter_cfg base_cycles_done w3 in
               if stop_event w4 then Inr (True, ready_at, w4)
               else Inr (False,
                      mark_ready_at ready_at (r, c) (clock w4) (cooldown_seconds (timing st)), w4)))"

text \<open>One iteration of \<^verbatim>\<open>for c in range(cols)\<close>.\<close>

definition visit ::
  "nat \<Rightarrow> app_state \<Rightarrow> int \<Rightarrow> int \<Rightarrow> cooldowns \<times> world \<Rightarrow>
     (error + bool \<times> cooldowns \<times> world) option" where
  "visit n st r c s =
     (let ready_at = fst s; w = snd s in
      if stop_event w then Some (Inr (True, ready_at, w))
      else case wait_if_paused n 0.1 w of
        None \<Rightarrow> None
      | Some (_, w1) \<Rightarrow>
          let w2 = w1\<lparr>current_position := Some (r, c)\<rparr>; now = clock w2 in
          (case wait_for ready_at (r, c) now of
             Inl e \<Rightarrow> Some (Inl e)
           | Inr wait \<Rightarrow>
               (case (if wait > 0 then map_option snd (sleep_interruptible n wait 0.05 w2)
                      else Some w2) of
                  None \<Rightarrow> None
                | Some w3 \<Rightarrow>
                    if wait > 0 \<and> stop_event w3 then Some (Inr (True, ready_at, w3))
                    else
                      let ox = origin_x (grid st) + offset_dx (grid st);
                          oy = origin_y (grid st) + offset_dy (grid st);
                          x = ox + c * step_x (grid st);
                          y = oy + r * step_y (grid st) in
                      (case click_position n x y (grid st) (timing st) w3 of
                         None \<Rightarrow> None
                       | Some w4 \<Rightarrow> Some (count_click st r c (ready_at, w4))))))"

fun for_cols ::
  "nat \<Rightarrow> app_state \<Rightarrow> int \<Rightarrow> int list \<Rightarrow> cooldowns \<times> world \<Rightarrow>
     (error + cooldowns \<times> world) option" where
  "for_cols n st r [] s = Some (Inr s)"
| "for_cols n st r (c # cs) s =
     (case visit n st r c s of
        None \<Rightarrow> None
      | Some (Inl e) \<Rightarrow> Some (Inl e)
      | Some (Inr (broke, s')) \<Rightarrow> if broke then Some (Inr s') else for_cols n st r cs s')"

fun for_rows ::
  "nat \<Rightarrow> app_state \<Rightarrow> int list \<Rightarrow> int list \<Rightarrow> cooldowns \<times> world \<Rightarrow>
     (error + cooldowns \<times> world) option" where
  "for_rows n st [] cs s = Some (Inr s)"
| "for_rows n st (r # rs) cs s =
     (case for_cols n st r cs s of
        None \<Rightarrow> None
      | Some (Inl e) \<Rightarrow> Some (Inl e)
      | Some (Inr s') \<Rightarrow> if stop_event (snd s') then Some (Inr s') else for_rows n st rs cs s')"

text \<open>\<^verbatim>\<open>range(k)\<close>.\<close>

definition range_upto :: "int \<Rightarrow> int list" where
  "range_upto k = [0..k - 1]"

text \<open>The \<^verbatim>\<open>while not stop_event.is_set()\<close> loop of \<^verbatim>\<open>run_cycles\<close> and what follows it.
  \<^verbatim>\<open>print_stats\<close> and the log lines change no state the scheduler reads.\<close>

definition stopped :: "world \<Rightarrow> world" where
  "stopped w = w\<lparr>current_position := None\<rparr>"

fun cycles ::
  "nat \<Rightarrow> app_state \<Rightarrow> int \<Rightarrow> int \<Rightarrow> cooldowns \<times> world \<Rightarrow> (error + world) option" where
  "cycles 0 st n_rows n_cols s = None"
| "cycles (Suc n) st n_rows n_cols s =
     (let ready_at = fst s; w = snd s in
      if stop_event w then Some (Inr (stopped w))
      else case wait_if_paused n 0.1 w of
        None \<Rightarrow> None
      | Some (_, w1) \<Rightarrow>
          let t0 = clock w1; next_start = t0 + cooldown_seconds (timing st) in
          (case for_rows n st (range_upto n_rows) (range_upto n_cols) (ready_at, w1) of
             None \<Rightarrow> None
           | Some (Inl e) \<Rightarrow> Some (Inl e)
           | Some (Inr (ready_at', w2)) \<Rightarrow>
               let elapsed = clock w2 - t0;
                   w3 = w2\<lparr>cycle_times := cycle_times w2 @ [elapsed]\<rparr> in
               (case run_start_time w3 of
                  None \<Rightarrow> Some (Inl TypeError)
                | Some started \<Rightarrow>
                    let w4 = w3\<lparr>session_active_time :=
                                  clock w3 - started - session_pause_time w3\<rparr> in
                    if stop_event w4 then Some (Inr (stopped w4))
                    else
                      let remaining = next_start - clock w4 in
                      if remaining > 0 then
                        (case sleep_interruptible n remaining 0.05 w4 of
                           None \<Rightarrow> None
                         | Some (_, w5) \<Rightarrow> cycles n st n_rows n_cols (ready_at', w5))
                      else cycles n st n_rows n_cols (ready_at', w4))))"

text \<open>The dict comprehension \<^verbatim>\<open>{(r, c): v for r in range(rows) for c in range(cols)}\<close>.\<close>

definition grid_dict :: "int \<Rightarrow> int \<Rightarrow> 'a \<Rightarrow> position \<rightharpoonup> 'a" where
  "grid_dict n_rows n_cols v =
     map_of (concat (map (\<lambda>r. map (\<lambda>c. ((r, c), v)) (range_upto n_cols)) (range_upto n_rows)))"

definition run_cycles :: "nat \<Rightarrow> app_state \<Rightarrow> world \<Rightarrow> (error + world) option" where
  "run_cycles n st w =
     (let n_rows = max 1 (rows (grid st));
          n_cols = max 1 (cols (grid st));
          ready_at = grid_dict n_rows n_cols 0;
          w1 = w\<lparr>per_position_clicks := grid_dict n_rows n_cols 0, cycle_times := [],
                 session_clicks := 0, session_cycles_added := 0,
                 session_pause_time := 0, session_active_time := 0,
                 run_start_time := Some (clock w)\<rparr>
      in cycles n st n_rows n_cols (ready_at, w1))"

text \<open>\<^verbatim>\<open>App.start\<close>: the only test before the run is whether a worker thread is alive. The
  flags are cleared; the countdown overlay then either is cancelled (which sets the stop
  flag) or starts the worker thread, whose body is \<^verbatim>\<open>run_cycles(self.state_obj)\<close>.\<close>

datatype start_result = Already_running | Start_cancelled world | Ran "(error + world) option"

definition start :: "nat \<Rightarrow> bool \<Rightarrow> bool \<Rightarrow> app_state \<Rightarrow> world \<Rightarrow> start_result" where
  "start n worker_alive cancelled st w =
     (if worker_alive then Already_running
      else
        let w1 = w\<lparr>stop_event := False, pause_event := False\<rparr> in
        if cancelled then Start_cancelled (w1\<lparr>stop_event := True\<rparr>)
        else Ran (run_cycles n st w1))"

section \<open>Initial state and default configuration\<close>

text \<open>The module globals as the module initialises them, observed at clock \<open>t\<close> with the key
  presses \<open>ks\<close> still to come and the random values \<open>us\<close>.\<close>

definition module_state :: "real \<Rightarrow> (real \<times> key) list \<Rightarrow> real list \<Rightarrow> world" where
  "module_state t ks us =
     \<lparr>clock = t, keys = ks, randoms = us, clicked = [],
      stop_event = False, pause_event = False,
      session_clicks = 0, session_cycles_added = 0,
      session_pause_time = 0, session_active_time = 0,
      per_position_clicks = Map.empty, run_start_time = None,
      current_position = None, cycle_times = []\<rparr>"

text \<open>\<^verbatim>\<open>default_state()\<close>: the defaults of the three dataclasses.\<close>

definition default_state :: app_state where
  "default_state =
     \<lparr>grid = \<lparr>origin_x = 854, origin_y = 400, step_x = 84, step_y = 84, rows = 5, cols = 4,
               offset_dx = 0, offset_dy = 0, random_offset_px = 20\<rparr>,
      timing = \<lparr>cooldown_seconds = 8, always_second_click = True, click_delay = 0.16,
                 between_positions_delay = 0.20, click_delay_jitter = 0.06,
                 between_positions_jitter = 0.15\<rparr>,
      counters = \<lparr>start_cycles_done = 0, target_cycles = None, pause_at_cycles = None,
                   stop_after_minutes = None, pause_after_minutes = None,
                   clicks_per_cycle = 3\<rparr>\<rparr>"

text \<open>A configuration without randomness (no click spread, no jitter) and with a single
  click per visit: a grid of the given dimensions, cooldown and delay between positions.\<close>

definition plain_grid :: "int \<Rightarrow> int \<Rightarrow> real \<Rightarrow> real \<Rightarrow> counter_config \<Rightarrow> app_state" where
  "plain_grid n_rows n_cols cooldown between counter_cfg =
     \<lparr>grid = \<lparr>origin_x = 100, origin_y = 200, step_x = 10, step_y = 10,
               rows = n_rows, cols = n_cols, offset_dx = 0, offset_dy = 0,
               random_offset_px = 0\<rparr>,
      timing = \<lparr>cooldown_seconds = cooldown, always_second_click = False, click_delay = 0,
                 between_positions_delay = between, click_delay_jitter = 0,
                 between_positions_jitter = 0\<rparr>,
      counters = counter_cfg\<rparr>"

text \<open>The constants of \<^verbatim>\<open>autoclicker_grid.py\<close> as the script sets them.\<close>

definition limits_of_script :: limits_v1 where
  "limits_of_script =
     \<lparr>STOP_AFTER_HARVESTS = None, PAUSE_AFTER_HARVESTS = None,
      STOP_AFTER_MINUTES = None, PAUSE_AFTER_MINUTES = None,
      STOP_AFTER_SHOVELS = Some 250, PAUSE_AFTER_SHOVELS = None\<rparr>"

section \<open>Assumptions on the controller\<close>

text \<open>The pending key presses are listed in the order of their times.\<close>

definition in_time_order :: "world \<Rightarrow> bool" where
  "in_time_order w = sorted (map fst (keys w))"

text \<open>The run is not paused and F8 will not be pressed.\<close>

definition never_paused :: "world \<Rightarrow> bool" where
  "never_paused w = (\<not> pause_event w \<and> F8 \<notin> snd ` set (keys w))"

text \<open>The stop flag is set already, or ESC will be pressed at \<open>ts\<close>, no earlier than now and
  less than \<open>n\<close> slices of length \<open>s\<close> from now.\<close>

definition stop_within :: "real \<Rightarrow> real \<Rightarrow> nat \<Rightarrow> world \<Rightarrow> bool" where
  "stop_within ts s n w =
     (stop_event w \<or>
      (in_time_order w \<and> (ts, Esc) \<in> set (keys w) \<and> clock w \<le> ts
       \<and> ts - clock w < real n * s))"

text \<open>Two configurations that differ at most in the grid's dimensions.\<close>

definition same_but_dims :: "app_state \<Rightarrow> app_state \<Rightarrow> bool" where
  "same_but_dims st st' =
     (timing st' = timing st \<and> counters st' = counters st
      \<and> (\<exists>a b. grid st' = (grid st)\<lparr>rows := a, cols := b\<rparr>))"

section \<open>Observations of a run\<close>

text \<open>From \<open>w\<close> to \<open>w'\<close> the click log has only grown, and every click added was made at
  a clock reading of \<open>t\<close> or later.\<close>

definition clicks_from :: "real \<Rightarrow> world \<Rightarrow> world \<Rightarrow> bool" where
  "clicks_from t w w' =
     (\<exists>new. clicked w' = clicked w @ new \<and> (\<forall>c \<in> set new. t \<le> fst c))"


text \<open>Nothing is set and no key press is to come.\<close>

definition quiet :: "world \<Rightarrow> bool" where
  "quiet w = (keys w = [] \<and> \<not> pause_event w \<and> \<not> stop_event w)"

section \<open>The threshold rule\<close>

lemma mod_shift: "2 \<le> N \<Longrightarrow> ((c - 1) mod N = 0) = (c mod N = (1::int))"
proof -
  assume N: "2 \<le> N"
  have "(c - 1) mod N = 0 \<longleftrightarrow> N dvd (c - 1)"
    by (simp add: dvd_eq_mod_eq_0)
  also have "\<dots> \<longleftrightarrow> c mod N = 1 mod N"
    by (metis mod_eq_dvd_iff)
  also have "1 mod N = 1"
    using N by simp
  finally show ?thesis .
qed

text \<open>
  C1, as stated: for \<open>N \<ge> 1\<close> and \<open>c \<ge> 1\<close> the threshold test is true exactly when
  \<open>c mod N = 1\<close>. It fails for \<open>N = 1\<close>: the second visit is a milestone for all three
  variants of the test, while \<open>2 mod 1\<close> is \<open>0\<close>.
\<close>

theorem threshold_rule_counterexample:
  "should_count_cycle 2
     \<lparr>start_cycles_done = 0, target_cycles = None, pause_at_cycles = None,
      stop_after_minutes = None, pause_after_minutes = None, clicks_per_cycle = 1\<rparr> = Inr True
   \<and> should_consume_shovel 2 1 = Inr True
   \<and> shovel_test_v1 2 1 = Inr True
   \<and> (2::int) mod 1 \<noteq> 1"
  by (simp add: should_count_cycle_def should_consume_shovel_def shovel_test_v1_def py_mod_def)

text \<open>
  C1, amended: for every \<open>N \<ge> 1\<close> and every visit count \<open>c\<close>, each variant of the threshold
  test returns true exactly when \<open>(c - 1) mod N = 0\<close>. For \<open>N \<ge> 2\<close> that is \<open>c mod N = 1\<close>;
  for \<open>N = 1\<close> every visit is a milestone; the first visit always is one.
\<close>

theorem threshold_rule:
  "1 \<le> N \<longrightarrow>
     should_count_cycle c (cfg\<lparr>clicks_per_cycle := N\<rparr>) = Inr ((c - 1) mod N = 0)
   \<and> should_consume_shovel c N = Inr ((c - 1) mod N = 0)
   \<and> shovel_test_v1 c N = Inr ((c - 1) mod N = 0)
   \<and> (2 \<le> N \<longrightarrow> ((c - 1) mod N = 0) = (c mod N = 1))
   \<and> (N = 1 \<longrightarrow> (c - 1) mod N = 0)
   \<and> (c = 1 \<longrightarrow> (c - 1) mod N = 0)"
  by (auto simp: should_count_cycle_def should_consume_shovel_def shovel_test_v1_def py_mod_def
        max_def mod_shift)

theorem threshold_rule_witness:
  "should_count_cycle 7
     \<lparr>start_cycles_done = 0, target_cycles = None, pause_at_cycles = None,
      stop_after_minutes = None, pause_after_minutes = None, clicks_per_cycle = 3\<rparr> = Inr True
   \<and> should_consume_shovel 7 3 = Inr True
   \<and> shovel_test_v1 7 3 = Inr True
   \<and> (7::int) mod 3 = 1"
  using threshold_rule [of 3 7
      "\<lparr>start_cycles_done = 0, target_cycles = None, pause_at_cycles = None,
        stop_after_minutes = None, pause_after_minutes = None, clicks_per_cycle = 3\<rparr>"]
  by simp

text \<open>
  C9: a configured value \<open>\<le> 0\<close> is clamped to \<open>1\<close>, so every visit is a milestone; the
  divisor of the modulo is \<open>max 1 N \<ge> 1\<close> and the test never raises. This holds for
  \<^verbatim>\<open>should_count_cycle\<close> and for \<^verbatim>\<open>should_consume_shovel\<close>.
\<close>

theorem threshold_clamp:
  "(\<forall>e. should_count_cycle c cfg \<noteq> Inl e)
   \<and> (\<forall>e. should_consume_shovel c N \<noteq> Inl e)
   \<and> should_count_cycle c cfg = Inr ((c - 1) mod max 1 (clicks_per_cycle cfg) = 0)
   \<and> should_consume_shovel c N = Inr ((c - 1) mod max 1 N = 0)
   \<and> 1 \<le> max 1 (clicks_per_cycle cfg) \<and> 1 \<le> max 1 N
   \<and> (clicks_per_cycle cfg \<le> 0 \<longrightarrow>
        should_count_cycle c cfg = Inr True
        \<and> should_count_cycle c cfg = should_count_cycle c (cfg\<lparr>clicks_per_cycle := 1\<rparr>))
   \<and> (N \<le> 0 \<longrightarrow>
        should_consume_shovel c N = Inr True
        \<and> should_consume_shovel c N = should_consume_shovel c 1)"
  by (auto simp: should_count_cycle_def should_consume_shovel_def py_mod_def max_def)

theorem threshold_clamp_witness:
  "should_count_cycle 5
     \<lparr>start_cycles_done = 0, target_cycles = None, pause_at_cycles = None,
      stop_after_minutes = None, pause_after_minutes = None, clicks_per_cycle = - 2\<rparr> = Inr True
   \<and> should_consume_shovel 5 0 = Inr True"
  using threshold_clamp [of 5
      "\<lparr>start_cycles_done = 0, target_cycles = None, pause_at_cycles = None,
        stop_after_minutes = None, pause_after_minutes = None, clicks_per_cycle = - 2\<rparr>" 0]
  by simp

section \<open>The threshold policy\<close>

text \<open>
  C7: when a stop rule fires in an evaluation of the policy (the target count or the
  stop-after-minutes limit; in the first script also the shovel limit), the evaluation
  sets the stop flag and changes nothing else, the pause flag included.
\<close>

theorem stop_leaves_pause_unchanged:
  "(run_start_time w = Some started \<longrightarrow>
      reached (target_cycles cfg) (base + session_cycles_added w)
      \<or> reached (stop_after_minutes cfg) ((clock w - started) / 60) \<longrightarrow>
      maybe_pause_or_stop cfg base w = w\<lparr>stop_event := True\<rparr>
      \<and> stop_event (maybe_pause_or_stop cfg base w)
      \<and> pause_event (maybe_pause_or_stop cfg base w) = pause_event w)
   \<and> (run_start_time w = Some started \<longrightarrow>
      reached (STOP_AFTER_HARVESTS limits) harvests
      \<or> reached (STOP_AFTER_MINUTES limits) ((clock w - started) / 60)
      \<or> reached (STOP_AFTER_SHOVELS limits) shovels \<longrightarrow>
      maybe_pause_or_stop_v1 limits harvests shovels w = w\<lparr>stop_event := True\<rparr>
      \<and> stop_event (maybe_pause_or_stop_v1 limits harvests shovels w)
      \<and> pause_event (maybe_pause_or_stop_v1 limits harvests shovels w) = pause_event w)"
  by (auto simp: maybe_pause_or_stop_def maybe_pause_or_stop_v1_def Let_def)

theorem stop_leaves_pause_unchanged_witness:
  "stop_event (maybe_pause_or_stop ((counters default_state)\<lparr>target_cycles := Some 2\<rparr>) 2
       ((module_state 5 [] [])\<lparr>run_start_time := Some 0, pause_event := True\<rparr>))
   \<and> pause_event (maybe_pause_or_stop ((counters default_state)\<lparr>target_cycles := Some 2\<rparr>) 2
       ((module_state 5 [] [])\<lparr>run_start_time := Some 0, pause_event := True\<rparr>))
   \<and> stop_event (maybe_pause_or_stop_v1 limits_of_script 700 250
       ((module_state 5 [] [])\<lparr>run_start_time := Some 0\<rparr>))
   \<and> \<not> pause_event (maybe_pause_or_stop_v1 limits_of_script 700 250
       ((module_state 5 [] [])\<lparr>run_start_time := Some 0\<rparr>))"
  using stop_leaves_pause_unchanged
    [of "(module_state 5 [] [])\<lparr>run_start_time := Some 0, pause_event := True\<rparr>" 0
        "(counters default_state)\<lparr>target_cycles := Some 2\<rparr>" 2 limits_of_script 700 250]
    stop_leaves_pause_unchanged
    [of "(module_state 5 [] [])\<lparr>run_start_time := Some 0\<rparr>" 0
        "(counters default_state)\<lparr>target_cycles := Some 2\<rparr>" 2 limits_of_script 700 250]
  by (simp add: module_state_def default_state_def limits_of_script_def reached_def)

text \<open>
  C10: an evaluation of the policy never clears a control flag: a stop flag that was set
  stays set, and so does a pause flag.
\<close>

theorem policy_never_clears_flags:
  "(stop_event w \<longrightarrow> stop_event (maybe_pause_or_stop cfg base w))
   \<and> (pause_event w \<longrightarrow> pause_event (maybe_pause_or_stop cfg base w))
   \<and> (stop_event w \<longrightarrow> stop_event (maybe_pause_or_stop_v1 limits harvests shovels w))
   \<and> (pause_event w \<longrightarrow> pause_event (maybe_pause_or_stop_v1 limits harvests shovels w))"
  by (auto simp: maybe_pause_or_stop_def maybe_pause_or_stop_v1_def Let_def split: option.splits)

theorem policy_never_clears_flags_witness:
  "stop_event (maybe_pause_or_stop ((counters default_state)\<lparr>pause_at_cycles := Some 1\<rparr>) 4
       ((module_state 5 [] [])\<lparr>run_start_time := Some 0, stop_event := True,
                                   pause_event := True\<rparr>))
   \<and> pause_event (maybe_pause_or_stop ((counters default_state)\<lparr>pause_at_cycles := Some 1\<rparr>) 4
       ((module_state 5 [] [])\<lparr>run_start_time := Some 0, stop_event := True,
                                   pause_event := True\<rparr>))
   \<and> stop_event (maybe_pause_or_stop_v1 limits_of_script 3 1
       ((module_state 5 [] [])\<lparr>run_start_time := Some 0, stop_event := True,
                                   pause_event := True\<rparr>))
   \<and> pause_event (maybe_pause_or_stop_v1 limits_of_script 3 1
       ((module_state 5 [] [])\<lparr>run_start_time := Some 0, stop_event := True,
                                   pause_event := True\<rparr>))"
  using policy_never_clears_flags
    [of "(module_state 5 [] [])\<lparr>run_start_time := Some 0, stop_event := True,
                                   pause_event := True\<rparr>"
        "(counters default_state)\<lparr>pause_at_cycles := Some 1\<rparr>" 4 limits_of_script 3 1]
  by (simp add: module_state_def)

text \<open>
  C2, as stated: with stop-after-minutes the only limit, stop is requested once that much
  \<^emph>\<open>active\<close> time has passed, time spent paused not counting. It fails: with a limit of
  \<open>0.01\<close> minutes (\<open>0.6\<close> seconds) and a pause from \<open>0.05\<close> to \<open>0.45\<close>, the run stops itself at
  \<open>0.7\<close> seconds, when its active time, as the run itself accounts it, is \<open>0.3\<close> seconds.
\<close>

theorem stop_after_minutes_counterexample:
  "case run_cycles 20
          (plain_grid 1 1 0.3 0 ((counters default_state)\<lparr>stop_after_minutes := Some 0.01\<rparr>))
          (module_state 0 [(0.05, F8), (0.45, F8)] []) of
     Some (Inr w) \<Rightarrow>
       stop_event w \<and> clock w = 0.7 \<and> run_start_time w = Some 0
       \<and> session_pause_time w = 0.4 \<and> session_active_time w = 0.3
       \<and> session_active_time w / 60 < 0.01
   | _ \<Rightarrow> False"
  by code_simp

text \<open>
  C2, amended: with stop-after-minutes the only limit, an evaluation of the policy requests
  stop exactly when the wall-clock time since the start of the run,
  \<open>(now - run_start_time) / 60\<close>, has reached the limit. The time spent paused is not
  subtracted: the outcome is the same whatever \<open>session_pause_time\<close> holds. The same holds
  for the first script with \<^verbatim>\<open>STOP_AFTER_MINUTES\<close>.
\<close>

theorem stop_after_minutes_wall_clock:
  "(run_start_time w = Some started \<longrightarrow> stop_after_minutes cfg = Some m \<longrightarrow>
      target_cycles cfg = None \<longrightarrow> pause_at_cycles cfg = None \<longrightarrow>
      pause_after_minutes cfg = None \<longrightarrow>
      maybe_pause_or_stop cfg base w =
        (if m \<le> (clock w - started) / 60 then w\<lparr>stop_event := True\<rparr> else w)
      \<and> maybe_pause_or_stop cfg base (w\<lparr>session_pause_time := q\<rparr>) =
          (maybe_pause_or_stop cfg base w)\<lparr>session_pause_time := q\<rparr>)
   \<and> (run_start_time w = Some started \<longrightarrow> STOP_AFTER_MINUTES limits = Some m \<longrightarrow>
      STOP_AFTER_HARVESTS limits = None \<longrightarrow> STOP_AFTER_SHOVELS limits = None \<longrightarrow>
      PAUSE_AFTER_HARVESTS limits = None \<longrightarrow> PAUSE_AFTER_MINUTES limits = None \<longrightarrow>
      PAUSE_AFTER_SHOVELS limits = None \<longrightarrow>
      maybe_pause_or_stop_v1 limits harvests shovels w =
        (if m \<le> (clock w - started) / 60 then w\<lparr>stop_event := True\<rparr> else w))"
  by (simp add: maybe_pause_or_stop_def maybe_pause_or_stop_v1_def reached_def)

theorem stop_after_minutes_wall_clock_witness:
  "stop_event (maybe_pause_or_stop ((counters default_state)\<lparr>stop_after_minutes := Some 1\<rparr>) 0
       ((module_state 70 [] [])\<lparr>run_start_time := Some 0, session_pause_time := 40\<rparr>))
   \<and> stop_event (maybe_pause_or_stop_v1 (limits_of_script\<lparr>STOP_AFTER_MINUTES := Some 1,
                                           STOP_AFTER_SHOVELS := None\<rparr>) 0 0
       ((module_state 70 [] [])\<lparr>run_start_time := Some 0, session_pause_time := 40\<rparr>))"
proof -
  let ?w = "(module_state 70 [] [])\<lparr>run_start_time := Some 0, session_pause_time := 40\<rparr>"
  let ?cfg = "(counters default_state)\<lparr>stop_after_minutes := Some 1\<rparr>"
  let ?lim = "limits_of_script\<lparr>STOP_AFTER_MINUTES := Some 1, STOP_AFTER_SHOVELS := None\<rparr>"
  have w: "run_start_time ?w = Some 0" "clock ?w = 70"
    by (simp_all add: module_state_def)
  have cfg: "stop_after_minutes ?cfg = Some 1" "target_cycles ?cfg = None"
    "pause_at_cycles ?cfg = None" "pause_after_minutes ?cfg = None"
    by (simp_all add: default_state_def)
  have lim: "STOP_AFTER_MINUTES ?lim = Some 1" "STOP_AFTER_HARVESTS ?lim = None"
    "STOP_AFTER_SHOVELS ?lim = None" "PAUSE_AFTER_HARVESTS ?lim = None"
    "PAUSE_AFTER_MINUTES ?lim = None" "PAUSE_AFTER_SHOVELS ?lim = None"
    by (simp_all add: limits_of_script_def)
  from stop_after_minutes_wall_clock [of ?w 0 ?cfg 1 0 0 ?lim 0 0] w(1) cfg lim
  have "maybe_pause_or_stop ?cfg 0 ?w =
          (if 1 \<le> (clock ?w - 0) / 60 then ?w\<lparr>stop_event := True\<rparr> else ?w)"
    and "maybe_pause_or_stop_v1 ?lim 0 0 ?w =
          (if 1 \<le> (clock ?w - 0) / 60 then ?w\<lparr>stop_event := True\<rparr> else ?w)"
    by blast+
  then show ?thesis
    by (simp add: w(2))
qed

section \<open>The interruptible wait\<close>

subsection \<open>Frame lemmas\<close>

lemma on_key_press_frame [simp]:
  "clock (on_key_press k w) = clock w"
  "session_pause_time (on_key_press k w) = session_pause_time w"
  "keys (on_key_press k w) = keys w"
  by (cases k; simp)+

lemma on_key_press_stop: "stop_event w \<Longrightarrow> stop_event (on_key_press k w)"
  by (cases k) simp_all

lemma listener_frame [simp]:
  "clock (listener ks w) = clock w"
  "session_pause_time (listener ks w) = session_pause_time w"
  by (induction ks w rule: listener.induct; simp)+

lemma listener_stop: "stop_event w \<Longrightarrow> stop_event (listener ks w)"
  by (induction ks w rule: listener.induct) (simp_all add: on_key_press_stop)

lemma time_sleep_frame [simp]:
  "clock (time_sleep dt w) = clock w + dt"
  "session_pause_time (time_sleep dt w) = session_pause_time w"
  by (simp_all add: time_sleep_def)

lemma time_sleep_stop: "stop_event w \<Longrightarrow> stop_event (time_sleep dt w)"
  by (simp add: time_sleep_def listener_stop)

lemma listener_no_f8:
  "\<not> pause_event w \<Longrightarrow> F8 \<notin> snd ` set ks \<Longrightarrow>
     \<not> pause_event (listener ks w) \<and> F8 \<notin> snd ` set (keys (listener ks w))"
proof (induction ks w rule: listener.induct)
  case (1 w)
  then show ?case by simp
next
  case (2 t k ks w)
  then show ?case by (cases k) auto
qed

lemma time_sleep_never_paused: "never_paused w \<Longrightarrow> never_paused (time_sleep dt w)"
  using listener_no_f8 [of "w\<lparr>clock := clock w + dt\<rparr>" "keys w"]
  by (simp add: never_paused_def time_sleep_def)







lemma time_sleep_quiet: "keys w = [] \<Longrightarrow> time_sleep dt w = w\<lparr>clock := clock w + dt\<rparr>"
  by (cases w) (simp add: time_sleep_def)

lemma sleep_loop_quiet:
  "0 < step \<Longrightarrow> quiet w \<Longrightarrow> e - clock w \<le> real n * step \<Longrightarrow> n + 1 \<le> N \<Longrightarrow>
     \<exists>c'. sleep_loop N step e tp w = Some (tp, w\<lparr>clock := c'\<rparr>) \<and> clock w \<le> c'"
proof (induction n arbitrary: N w)
  case 0
  then obtain M where N: "N = Suc M" by (cases N) auto
  from 0 have "\<not> clock w < e" by simp
  with N have "sleep_loop N step e tp w = Some (tp, w\<lparr>clock := clock w\<rparr>)" by simp
  then show ?case by blast
next
  case (Suc n)
  then obtain M where N: "N = Suc M" and M: "n + 1 \<le> M" by (cases N) auto
  show ?case
  proof (cases "clock w < e")
    case False
    with N have "sleep_loop N step e tp w = Some (tp, w\<lparr>clock := clock w\<rparr>)" by simp
    then show ?thesis by blast
  next
    case True
    let ?w1 = "w\<lparr>clock := clock w + step\<rparr>"
    from Suc.prems(2) have q: "quiet ?w1" and ts: "time_sleep step w = ?w1"
      by (simp_all add: quiet_def time_sleep_quiet)
    from Suc.prems(3) have "e - clock ?w1 \<le> real n * step"
      by (simp add: algebra_simps)
    from Suc.IH [OF Suc.prems(1) q this M] obtain c' where
      r: "sleep_loop M step e tp ?w1 = Some (tp, ?w1\<lparr>clock := c'\<rparr>)" and c: "clock ?w1 \<le> c'"
      by blast
    from Suc.prems(2) True N r ts have "sleep_loop N step e tp w = Some (tp, w\<lparr>clock := c'\<rparr>)"
      by (simp add: quiet_def)
    moreover from c Suc.prems(1) have "clock w \<le> c'" by simp
    ultimately show ?thesis by blast
  qed
qed

lemma sleep_interruptible_quiet:
  assumes "quiet w" and "d \<le> real n * 0.05" and "n + 1 \<le> N"
  shows "\<exists>c'. sleep_interruptible N d 0.05 w = Some (0, w\<lparr>clock := c'\<rparr>) \<and> clock w \<le> c'"
proof -
  have "(0::real) < 0.05" by simp
  moreover from assms(2) have "clock w + d - clock w \<le> real n * 0.05" by simp
  ultimately show ?thesis
    using sleep_loop_quiet [of "0.05" w "clock w + d" n N 0] assms(1,3)
    by (simp add: sleep_interruptible_def)
qed

subsection \<open>The first script's wait\<close>

lemma on_key_press_pause_time:
  "on_key_press k (w\<lparr>session_pause_time := x\<rparr>) = (on_key_press k w)\<lparr>session_pause_time := x\<rparr>"
  by (cases k) simp_all

lemma listener_pause_time:
  "listener ks (w\<lparr>session_pause_time := x\<rparr>) = (listener ks w)\<lparr>session_pause_time := x\<rparr>"
  by (induction ks w rule: listener.induct) (simp_all add: on_key_press_pause_time)

lemma time_sleep_pause_time:
  "time_sleep dt (w\<lparr>session_pause_time := x\<rparr>) = (time_sleep dt w)\<lparr>session_pause_time := x\<rparr>"
proof -
  have "time_sleep dt (w\<lparr>session_pause_time := x\<rparr>) =
        listener (keys w) (w\<lparr>clock := clock w + dt, session_pause_time := x\<rparr>)"
    by (cases w) (simp add: time_sleep_def)
  also have "\<dots> = (listener (keys w) (w\<lparr>clock := clock w + dt\<rparr>))\<lparr>session_pause_time := x\<rparr>"
    by (rule listener_pause_time)
  finally show ?thesis
    by (simp add: time_sleep_def)
qed

lemma wait_loop_pause_time:
  "wait_loop n s (w\<lparr>session_pause_time := x\<rparr>) =
     map_option (\<lambda>w'. w'\<lparr>session_pause_time := x\<rparr>) (wait_loop n s w)"
  by (induction n arbitrary: w) (simp_all add: time_sleep_pause_time)

lemma sleep_loop_v1_sim:
  "map_option (\<lambda>w'. w'\<lparr>session_pause_time := x\<rparr>) (sleep_loop_v1 n step e w) =
     map_option (\<lambda>(p, w'). w'\<lparr>session_pause_time := x\<rparr>)
       (sleep_loop n step e tp (w\<lparr>session_pause_time := y\<rparr>))"
proof (induction n arbitrary: e tp w y)
  case 0
  show ?case by simp
next
  case (Suc n)
  show ?case
  proof (cases "clock w < e \<and> \<not> stop_event w")
    case False
    then show ?thesis by auto
  next
    case running: True
    show ?thesis
    proof (cases "pause_event w")
      case False
      with running Suc.IH [of e "time_sleep step w" tp y] show ?thesis
        by (simp add: time_sleep_pause_time)
    next
      case True
      show ?thesis
      proof (cases "wait_loop n (max step (1/10)) w")
        case None
        with running True show ?thesis
          by (simp add: wait_if_paused_def wait_loop_pause_time)
      next
        case (Some w1)
        with running True
          Suc.IH [of "e + (clock w1 - clock w)" w1 "tp + (clock w1 - clock w)"
                     "y + (clock w1 - clock w)"]
        show ?thesis
          by (simp add: wait_if_paused_def wait_loop_pause_time)
      qed
    qed
  qed
qed


subsection \<open>Stop during a wait\<close>

lemma listener_esc:
  "sorted (map fst ks) \<Longrightarrow> (ts, Esc) \<in> set ks \<Longrightarrow> ts \<le> clock w \<Longrightarrow> stop_event (listener ks w)"
proof (induction ks w rule: listener.induct)
  case (1 w)
  then show ?case by simp
next
  case (2 t k ks w)
  show ?case
  proof (cases "t \<le> clock w")
    case True
    show ?thesis
    proof (cases "(ts, Esc) = (t, k)")
      case True
      with \<open>t \<le> clock w\<close> show ?thesis by (simp add: listener_stop)
    next
      case False
      with "2.prems" have "(ts, Esc) \<in> set ks" "sorted (map fst ks)" by auto
      with "2.IH" [OF True] "2.prems"(3) True show ?thesis by simp
    qed
  next
    case False
    from "2.prems"(1,2) have "t \<le> ts" by auto
    with False "2.prems"(3) show ?thesis by simp
  qed
qed

lemma listener_keeps:
  "(ts, Esc) \<in> set ks \<Longrightarrow> clock w < ts \<Longrightarrow> (ts, Esc) \<in> set (keys (listener ks w))"
  by (induction ks w rule: listener.induct) auto

lemma listener_suffix: "\<exists>xs. ks = xs @ keys (listener ks w)"
proof (induction ks w rule: listener.induct)
  case (1 w)
  then show ?case by simp
next
  case (2 t k ks w)
  show ?case
  proof (cases "t \<le> clock w")
    case True
    from "2.IH" [OF True] obtain xs where "ks = xs @ keys (listener ks (on_key_press k w))" ..
    then have "(t, k) # ks = ((t, k) # xs) @ keys (listener ks (on_key_press k w))" by simp
    with True show ?thesis by (metis listener.simps(2))
  next
    case False
    then show ?thesis by simp
  qed
qed

lemma listener_sorted: "sorted (map fst ks) \<Longrightarrow> sorted (map fst (keys (listener ks w)))"
proof -
  assume s: "sorted (map fst ks)"
  from listener_suffix [of ks w] obtain xs where "ks = xs @ keys (listener ks w)" ..
  with s have "sorted (map fst (xs @ keys (listener ks w)))" by simp
  then show ?thesis by (simp add: sorted_append)
qed

lemma stop_within_mono: "stop_within ts s n w \<Longrightarrow> n \<le> m \<Longrightarrow> 0 < s \<Longrightarrow> stop_within ts s m w"
proof -
  assume a: "stop_within ts s n w" and nm: "n \<le> m" and s: "0 < s"
  from nm s have "real n * s \<le> real m * s" by simp
  with a show ?thesis by (auto simp: stop_within_def)
qed

lemma stop_within_0: "stop_within ts s 0 w \<Longrightarrow> stop_event w"
  by (auto simp: stop_within_def)

lemma stop_within_sleep:
  assumes "stop_within ts s (Suc n) w" and "0 < s" and "s \<le> dt"
  shows "stop_within ts s n (time_sleep dt w)"
    and "\<not> stop_event w \<Longrightarrow> clock (time_sleep dt w) \<le> ts + dt"
proof -
  show "stop_within ts s n (time_sleep dt w)"
  proof (cases "stop_event w")
    case True
    then show ?thesis by (simp add: stop_within_def time_sleep_stop)
  next
    case False
    with assms(1) have o: "sorted (map fst (keys w))" and e: "(ts, Esc) \<in> set (keys w)"
      and c: "clock w \<le> ts" and b: "ts - clock w < real (Suc n) * s"
      by (auto simp: stop_within_def in_time_order_def)
    show ?thesis
    proof (cases "ts \<le> clock w + dt")
      case True
      with listener_esc [OF o e, of "w\<lparr>clock := clock w + dt\<rparr>"]
      show ?thesis by (simp add: stop_within_def time_sleep_def)
    next
      case False
      with listener_keeps [OF e, of "w\<lparr>clock := clock w + dt\<rparr>"]
      have "(ts, Esc) \<in> set (keys (time_sleep dt w))" by (simp add: time_sleep_def)
      moreover from listener_sorted [OF o, of "w\<lparr>clock := clock w + dt\<rparr>"]
      have "in_time_order (time_sleep dt w)" by (simp add: in_time_order_def time_sleep_def)
      moreover from b assms(3) have "ts - (clock w + dt) < real n * s"
        by (simp add: algebra_simps)
      ultimately show ?thesis using False by (simp add: stop_within_def)
    qed
  qed
  show "\<not> stop_event w \<Longrightarrow> clock (time_sleep dt w) \<le> ts + dt"
    using assms(1) by (auto simp: stop_within_def)
qed

lemma stop_within_pause_time [simp]:
  "stop_within ts s n (w\<lparr>session_pause_time := x\<rparr>) = stop_within ts s n w"
  by (simp add: stop_within_def in_time_order_def)

lemma wait_loop_returns:
  "0 < s \<Longrightarrow> s \<le> dt \<Longrightarrow> stop_within ts s n w \<Longrightarrow> n + 1 \<le> N \<Longrightarrow>
     \<exists>w'. wait_loop N dt w = Some w' \<and> clock w' \<le> max (clock w) (ts + dt)
        \<and> (if pause_event w \<and> \<not> stop_event w then stop_within ts s (n - 1) w' else w' = w)"
proof (induction n arbitrary: N w)
  case 0
  then obtain M where N: "N = Suc M" by (cases N) auto
  from 0 have "stop_event w" by (simp add: stop_within_0)
  with N show ?case by simp
next
  case (Suc n)
  then obtain M where N: "N = Suc M" and M: "n + 1 \<le> M" by (cases N) auto
  show ?case
  proof (cases "pause_event w \<and> \<not> stop_event w")
    case False
    with N show ?thesis by auto
  next
    case True
    let ?w1 = "time_sleep dt w"
    from stop_within_sleep [OF Suc.prems(3) Suc.prems(1) Suc.prems(2)] True
    have w1: "stop_within ts s n ?w1" and c1: "clock ?w1 \<le> ts + dt" by simp_all
    from Suc.IH [OF Suc.prems(1) Suc.prems(2) w1 M] obtain w' where
      r: "wait_loop M dt ?w1 = Some w'" and c: "clock w' \<le> max (clock ?w1) (ts + dt)"
      and k: "if pause_event ?w1 \<and> \<not> stop_event ?w1 then stop_within ts s (n - 1) w' else w' = ?w1"
      by blast
    have "stop_within ts s n w'"
    proof (cases "pause_event ?w1 \<and> \<not> stop_event ?w1")
      case True
      with k have "stop_within ts s (n - 1) w'" by simp
      then show ?thesis by (rule stop_within_mono [OF _ _ Suc.prems(1)]) simp
    next
      case False
      with k w1 show ?thesis by simp
    qed
    moreover from c c1 have "clock w' \<le> max (clock w) (ts + dt)" by simp
    ultimately show ?thesis using True N r by simp
  qed
qed

lemma sleep_loop_returns:
  "0 < step \<Longrightarrow> step \<le> B \<Longrightarrow> never_paused w \<or> max step (1/10) \<le> B \<Longrightarrow>
   stop_within ts step n w \<Longrightarrow> n + 2 \<le> N \<Longrightarrow>
     \<exists>p w'. sleep_loop N step e tp w = Some (p, w') \<and> clock w' \<le> max (clock w) (ts + B)"
proof (induction n arbitrary: N e tp w)
  case 0
  then obtain M where N: "N = Suc M" by (cases N) auto
  from 0 have "stop_event w" by (simp add: stop_within_0)
  with N show ?case by simp
next
  case (Suc n)
  then obtain M where N: "N = Suc M" and M: "n + 2 \<le> M" by (cases N) auto
  show ?case
  proof (cases "clock w < e \<and> \<not> stop_event w")
    case False
    with N show ?thesis by auto
  next
    case running: True
    show ?thesis
    proof (cases "pause_event w")
      case False
      let ?w1 = "time_sleep step w"
      from stop_within_sleep [OF Suc.prems(4) Suc.prems(1) order_refl] running
      have w1: "stop_within ts step n ?w1" and c1: "clock ?w1 \<le> ts + step" by simp_all
      from Suc.prems(3) have np: "never_paused ?w1 \<or> max step (1/10) \<le> B"
        using time_sleep_never_paused by blast
      from Suc.IH [OF Suc.prems(1) Suc.prems(2) np w1 M, of e tp] obtain p w' where
        r: "sleep_loop M step e tp ?w1 = Some (p, w')" and c: "clock w' \<le> max (clock ?w1) (ts + B)"
        by blast
      from c c1 Suc.prems(2) have "clock w' \<le> max (clock w) (ts + B)" by simp
      with running False N r show ?thesis by simp
    next
      case True
      with Suc.prems(3) have B: "max step (1/10) \<le> B" by (simp add: never_paused_def)
      have le: "step \<le> max step (1/10)" by simp
      have M': "Suc n + 1 \<le> M" using M by simp
      from wait_loop_returns [OF Suc.prems(1) le Suc.prems(4) M'] True running
      obtain w1 where r1: "wait_loop M (max step (1/10)) w = Some w1"
        and c1: "clock w1 \<le> max (clock w) (ts + max step (1/10))"
        and k1: "stop_within ts step n w1" by auto
      let ?pd = "clock w1 - clock w"
      let ?w2 = "w1\<lparr>session_pause_time := session_pause_time w1 + ?pd\<rparr>"
      from k1 have w2: "stop_within ts step n ?w2" by simp
      from B have np: "never_paused ?w2 \<or> max step (1/10) \<le> B" by simp
      from Suc.IH [OF Suc.prems(1) Suc.prems(2) np w2 M, of "e + ?pd" "tp + ?pd"] obtain p w' where
        r: "sleep_loop M step (e + ?pd) (tp + ?pd) ?w2 = Some (p, w')"
        and c: "clock w' \<le> max (clock ?w2) (ts + B)" by blast
      from running Suc.prems(4) have "clock w \<le> ts" by (auto simp: stop_within_def)
      with c c1 B have "clock w' \<le> max (clock w) (ts + B)" by simp
      with running True N r r1 show ?thesis by (simp add: wait_if_paused_def)
    qed
  qed
qed

lemma sleep_interruptible_sim_v1:
  assumes "sleep_interruptible n d step w = Some (p, w2)"
  shows "\<exists>w1. sleep_interruptible_v1 n d step w = Some w1
           \<and> clock w1 = clock w2 \<and> stop_event w1 = stop_event w2"
proof -
  from sleep_loop_v1_sim [of 0 n step "clock w + d" w 0 "session_pause_time w"] assms
  obtain w1 where
    r: "sleep_loop_v1 n step (clock w + d) w = Some w1" and
    eq: "w1\<lparr>session_pause_time := 0\<rparr> = w2\<lparr>session_pause_time := 0\<rparr>"
    by (cases "sleep_loop_v1 n step (clock w + d) w") (auto simp: sleep_interruptible_def)
  from eq have "clock (w1\<lparr>session_pause_time := 0\<rparr>) = clock (w2\<lparr>session_pause_time := 0\<rparr>)"
    and "stop_event (w1\<lparr>session_pause_time := 0\<rparr>) = stop_event (w2\<lparr>session_pause_time := 0\<rparr>)"
    by simp_all
  with r show ?thesis by (simp add: sleep_interruptible_v1_def)
qed

lemma stop_within_start:
  assumes "0 < step" "in_time_order w" "(ts, Esc) \<in> set (keys w)" "clock w \<le> ts"
  shows "\<exists>n. stop_within ts step n w"
proof -
  from ex_less_of_nat_mult [OF assms(1), of "ts - clock w"]
  obtain n where "ts - clock w < real n * step" ..
  with assms show ?thesis by (auto simp: stop_within_def)
qed

subsection \<open>Pause during a wait\<close>




lemma wait_loop_quiet: "quiet w \<Longrightarrow> wait_loop (Suc n) s w = Some w"
  by (simp add: quiet_def)



lemma quiet_pause_time [simp]: "quiet (w\<lparr>session_pause_time := x\<rparr>) = quiet w"
  by (simp add: quiet_def)





subsection \<open>Return within one slice of a stop\<close>

text \<open>
  C8, as stated: once stop is requested the wait returns within one poll interval. With the
  default slice of \<open>0.05\<close> it fails while the wait is paused, where it polls every
  \<open>max(step, 0.1)\<close>: ESC pressed at \<open>0.01\<close> ends the wait at \<open>0.1\<close>.
\<close>

theorem stop_ends_wait_counterexample:
  "(case sleep_interruptible 5 1 0.05
           ((module_state 0 [(0.01, Esc)] [])\<lparr>pause_event := True\<rparr>) of
      None \<Rightarrow> False
    | Some (p, w') \<Rightarrow> stop_event w' \<and> clock w' = 0.1 \<and> \<not> clock w' \<le> 0.01 + 0.05)
   \<and> (case sleep_interruptible_v1 5 1 0.05
           ((module_state 0 [(0.01, Esc)] [])\<lparr>pause_event := True\<rparr>) of
      None \<Rightarrow> False
    | Some w' \<Rightarrow> stop_event w' \<and> clock w' = 0.1 \<and> \<not> clock w' \<le> 0.01 + 0.05)"
  by code_simp

text \<open>
  C8, amended: a wait that finds the stop flag set at the top of a slice returns at once,
  without sleeping. If ESC is pressed at time \<open>ts\<close> during a wait, the wait returns, whatever
  remains of its duration, no later than \<open>ts + max(step, 0.1)\<close>, one slice of the loop it is
  in: \<open>ts + step\<close> when the run is never paused, and \<open>max(step, 0.1)\<close> being the slice of the
  paused wait. Both versions of the wait return at the same time.
\<close>

theorem stop_ends_wait:
  "(stop_event w \<longrightarrow>
      sleep_loop (Suc n) step e tp w = Some (tp, w) \<and> sleep_loop_v1 (Suc n) step e w = Some w)
   \<and> (0 < step \<longrightarrow> in_time_order w \<longrightarrow> (ts, Esc) \<in> set (keys w) \<longrightarrow> clock w \<le> ts \<longrightarrow>
        (\<exists>n0. \<forall>n\<ge>n0. \<exists>p w' w1.
           sleep_interruptible n d step w = Some (p, w')
           \<and> sleep_interruptible_v1 n d step w = Some w1 \<and> clock w1 = clock w'
           \<and> clock w' \<le> ts + max step (1/10)
           \<and> (never_paused w \<longrightarrow> clock w' \<le> ts + step)))"
proof (intro conjI impI)
  assume "stop_event w"
  then show "sleep_loop (Suc n) step e tp w = Some (tp, w)" "sleep_loop_v1 (Suc n) step e w = Some w"
    by simp_all
next
  assume step: "0 < step" and o: "in_time_order w" and k: "(ts, Esc) \<in> set (keys w)"
    and c: "clock w \<le> ts"
  from stop_within_start [OF step o k c] obtain m where m: "stop_within ts step m w" ..
  have le: "step \<le> max step (1/10)" by simp
  have "\<exists>p w' w1.
           sleep_interruptible n d step w = Some (p, w')
           \<and> sleep_interruptible_v1 n d step w = Some w1 \<and> clock w1 = clock w'
           \<and> clock w' \<le> ts + max step (1/10)
           \<and> (never_paused w \<longrightarrow> clock w' \<le> ts + step)" if n: "m + 2 \<le> n" for n
  proof -
    from sleep_loop_returns [OF step le _ m n, of "clock w + d" 0] obtain p w' where
      r: "sleep_loop n step (clock w + d) 0 w = Some (p, w')"
      and b: "clock w' \<le> max (clock w) (ts + max step (1/10))" by auto
    from r have r': "sleep_interruptible n d step w = Some (p, w')"
      by (simp add: sleep_interruptible_def)
    from sleep_interruptible_sim_v1 [OF r'] obtain w1 where
      v1: "sleep_interruptible_v1 n d step w = Some w1" and c1: "clock w1 = clock w'" by blast
    have "clock w' \<le> ts + step" if np: "never_paused w"
    proof -
      from sleep_loop_returns [OF step order_refl _ m n, of "clock w + d" 0] np obtain q w'' where
        "sleep_loop n step (clock w + d) 0 w = Some (q, w'')"
        and "clock w'' \<le> max (clock w) (ts + step)" by auto
      with r c step show ?thesis by simp
    qed
    moreover from b c step have "clock w' \<le> ts + max step (1/10)" by simp
    ultimately show ?thesis using r' v1 c1 by blast
  qed
  then show "\<exists>n0. \<forall>n\<ge>n0. \<exists>p w' w1.
           sleep_interruptible n d step w = Some (p, w')
           \<and> sleep_interruptible_v1 n d step w = Some w1 \<and> clock w1 = clock w'
           \<and> clock w' \<le> ts + max step (1/10)
           \<and> (never_paused w \<longrightarrow> clock w' \<le> ts + step)" by blast
qed

theorem stop_ends_wait_witness:
  "(\<exists>n0. \<forall>n\<ge>n0. \<exists>p w'.
      sleep_interruptible n 1 0.05 ((module_state 0 [(0.01, Esc)] [])\<lparr>pause_event := True\<rparr>)
        = Some (p, w')
      \<and> clock w' \<le> 0.01 + 0.1)
   \<and> sleep_loop 1 0.05 1 0 ((module_state 0 [] [])\<lparr>stop_event := True\<rparr>)
       = Some (0, (module_state 0 [] [])\<lparr>stop_event := True\<rparr>)"
proof -
  let ?W = "(module_state 0 [(0.01, Esc)] [])\<lparr>pause_event := True\<rparr>"
  have "(0::real) < 0.05" "in_time_order ?W" "(0.01, Esc) \<in> set (keys ?W)" "clock ?W \<le> 0.01"
    by (simp_all add: in_time_order_def module_state_def)
  with stop_ends_wait [of "(module_state 0 [] [])\<lparr>stop_event := True\<rparr>" 0 "0.05" 1 0 "0.01" 1]
    stop_ends_wait [of ?W 0 "0.05" 1 0 "0.01" 1]
  show ?thesis
    by (simp add: module_state_def) blast
qed

section \<open>The run\<close>

text \<open>
  C3 fails on the code in two ways, both after a stop requested while the run is paused
  just before a visit: \<^verbatim>\<open>wait_if_paused\<close> returns on stop and nothing checks the stop flag
  before the next step.
  \<^item> On a grid of two positions that pauses itself after the first milestone, ESC pressed
    during that pause ends the run after one click, yet two clicks, a visit of the second
    position and two milestones are counted: \<^verbatim>\<open>click_position\<close> returns at once on stop and
    \<^verbatim>\<open>run_cycles\<close> counts the visit all the same.
  \<^item> With F8 pressed during the last slice of the cooldown wait and ESC pressed at \<open>1.25\<close>,
    \<^verbatim>\<open>click_position\<close> passes its stop test, waits out the pause until the stop, and then
    clicks at \<open>1.3\<close>.
\<close>

theorem visit_counted_after_stop:
  "(case run_cycles 10
           (plain_grid 1 2 1 0 ((counters default_state)\<lparr>pause_at_cycles := Some 1\<rparr>))
           (module_state 0 [(0.05, Esc)] []) of
      Some (Inr w) \<Rightarrow>
        clicked w = [(0, 100, 200)] \<and> session_clicks w = 2
        \<and> per_position_clicks w (0, 1) = Some 1 \<and> session_cycles_added w = 2
    | _ \<Rightarrow> False)
   \<and> (case run_cycles 40 (plain_grid 1 1 1 0.2 (counters default_state))
           (module_state 0 [(1.18, F8), (1.25, Esc)] []) of
      Some (Inr w) \<Rightarrow>
        clicked w = [(0, 100, 200), (1.3, 100, 200)] \<and> session_clicks w = 2
        \<and> per_position_clicks w (0, 0) = Some 2
    | _ \<Rightarrow> False)"
  by code_simp

subsection \<open>The click log\<close>

lemma on_key_press_clicked [simp]: "clicked (on_key_press k w) = clicked w"
  by (cases k) simp_all

lemma listener_clicked [simp]: "clicked (listener ks w) = clicked w"
  by (induction ks w rule: listener.induct) simp_all

lemma time_sleep_clicked [simp]: "clicked (time_sleep dt w) = clicked w"
  by (simp add: time_sleep_def)





lemma next_random_frame [simp]:
  "clock (snd (next_random w)) = clock w"
  "clicked (snd (next_random w)) = clicked w"
  "stop_event (snd (next_random w)) = stop_event w"
  "pause_event (snd (next_random w)) = pause_event w"
  "keys (snd (next_random w)) = keys w"
  by (simp_all add: next_random_def split: list.splits)





lemma clicks_from_trans:
  "clicks_from t w w1 \<Longrightarrow> clicks_from t' w1 w2 \<Longrightarrow> t \<le> t' \<Longrightarrow> clicks_from t w w2"
  by (fastforce simp: clicks_from_def)

lemma clicks_from_click: "t \<le> clock w \<Longrightarrow> clicks_from t w (pyautogui_click x y w)"
  by (simp add: clicks_from_def pyautogui_click_def)

lemma pyautogui_click_frame [simp]:
  "clock (pyautogui_click x y w) = clock w"
  "stop_event (pyautogui_click x y w) = stop_event w"
  "pause_event (pyautogui_click x y w) = pause_event w"
  by (simp_all add: pyautogui_click_def)





lemma maybe_pause_or_stop_frame [simp]:
  "clicked (maybe_pause_or_stop cfg base w) = clicked w"
  "clock (maybe_pause_or_stop cfg base w) = clock w"
  by (simp_all add: maybe_pause_or_stop_def Let_def split: option.splits)


lemma wait_if_paused_idle:
  "\<not> pause_event w \<or> stop_event w \<Longrightarrow> wait_if_paused (Suc n) s w = Some (0, w)"
  by (auto simp: wait_if_paused_def)






subsection \<open>The grid's dimensions\<close>

text \<open>The body of the run reads the grid's dimensions nowhere: they enter through the two
  clamped locals of \<^verbatim>\<open>run_cycles\<close> only.\<close>

lemma click_position_dims:
  "click_position n x y (g\<lparr>rows := a, cols := b\<rparr>) t w = click_position n x y g t w"
  by (simp add: click_position_def cong: option.case_cong prod.case_cong if_cong)

lemma count_click_dims: "same_but_dims st st' \<Longrightarrow> count_click st' r c s = count_click st r c s"
  by (simp add: count_click_def same_but_dims_def Let_def cong: option.case_cong sum.case_cong if_cong)

lemma visit_dims: "same_but_dims st st' \<Longrightarrow> visit n st' r c s = visit n st r c s"
proof -
  assume a: "same_but_dims st st'"
  then obtain a b where g: "grid st' = (grid st)\<lparr>rows := a, cols := b\<rparr>"
    and t: "timing st' = timing st" by (auto simp: same_but_dims_def)
  show ?thesis
    by (simp add: visit_def g t click_position_dims count_click_dims [OF a] Let_def
          cong: option.case_cong sum.case_cong if_cong)
qed

lemma for_cols_dims: "same_but_dims st st' \<Longrightarrow> for_cols n st' r cs s = for_cols n st r cs s"
  by (induction cs arbitrary: s)
     (simp_all add: visit_dims cong: option.case_cong sum.case_cong prod.case_cong if_cong)

lemma for_rows_dims: "same_but_dims st st' \<Longrightarrow> for_rows n st' rs cs s = for_rows n st rs cs s"
  by (induction rs arbitrary: s)
     (simp_all add: for_cols_dims cong: option.case_cong sum.case_cong prod.case_cong if_cong)

lemma cycles_dims: "same_but_dims st st' \<Longrightarrow> cycles n st' a b s = cycles n st a b s"
proof (induction n arbitrary: s)
  case 0
  show ?case by simp
next
  case (Suc n)
  from Suc.prems have t: "timing st' = timing st" by (simp add: same_but_dims_def)
  show ?case
    by (simp add: for_rows_dims [OF Suc.prems] Suc.IH [OF Suc.prems] t Let_def
          cong: option.case_cong sum.case_cong prod.case_cong if_cong)
qed

lemma rows_same: "same_but_dims st (st\<lparr>grid := (grid st)\<lparr>rows := a\<rparr>\<rparr>)"
proof -
  have "(grid st)\<lparr>rows := a\<rparr> = (grid st)\<lparr>rows := a, cols := cols (grid st)\<rparr>" by simp
  then show ?thesis unfolding same_but_dims_def by (metis (no_types) app_state.select_convs app_state.surjective app_state.update_convs)
qed

lemma cols_same: "same_but_dims st (st\<lparr>grid := (grid st)\<lparr>cols := b\<rparr>\<rparr>)"
proof -
  have "(grid st)\<lparr>cols := b\<rparr> = (grid st)\<lparr>rows := rows (grid st), cols := b\<rparr>" by simp
  then show ?thesis unfolding same_but_dims_def by (metis (no_types) app_state.select_convs app_state.surjective app_state.update_convs)
qed

text \<open>
  C5, as stated: a configuration with a non-positive grid dimension or a negative duration
  is rejected by Start and the run never begins. It fails: with \<open>rows = 0\<close>, \<open>cols = -3\<close>, a
  cooldown of \<open>-1\<close> and a delay of \<open>-5\<close> the run begins and clicks the first position.
\<close>

theorem start_rejects_counterexample:
  "case start 10 False False
          (plain_grid 0 (- 3) (- 1) (- 5) ((counters default_state)\<lparr>target_cycles := Some 1\<rparr>))
          (module_state 0 [] []) of
     Ran (Some (Inr w)) \<Rightarrow> clicked w = [(0, 100, 200)] \<and> session_clicks w = 1
   | _ \<Rightarrow> False"
  by code_simp

subsection \<open>A run that stops after its first visit\<close>

lemma grid_dict_origin: "1 \<le> a \<Longrightarrow> 1 \<le> b \<Longrightarrow> grid_dict a b v (0, 0) = Some v"
  by (simp add: grid_dict_def range_upto_def upto_rec1)

lemma range_upto_first: "1 \<le> a \<Longrightarrow> \<exists>rest. range_upto a = 0 # rest"
  by (simp add: range_upto_def upto_rec1)

lemma click_position_plain:
  assumes q: "quiet w" and g: "random_offset_px g \<le> 0"
    and t: "\<not> always_second_click t" "between_positions_jitter t \<le> 0"
    and b: "max 0 (between_positions_delay t) \<le> real nb * 0.05" and n: "nb + 2 \<le> n"
  shows "\<exists>c'. click_position n x y g t w = Some ((pyautogui_click x y w)\<lparr>clock := c'\<rparr>)
           \<and> clock w \<le> c'"
proof -
  from n obtain m where m: "n = Suc m" and nm: "nb + 1 \<le> m" by (cases n) auto
  from q have w1: "wait_if_paused n 0.1 w = Some (0, w)"
    by (simp add: m quiet_def wait_if_paused_idle)
  let ?w3 = "pyautogui_click x y w"
  from q have q3: "quiet ?w3" by (simp add: quiet_def pyautogui_click_def)
  have n': "nb + 1 \<le> n" using n by simp
  from sleep_interruptible_quiet [OF q3 b n'] obtain c' where
    s: "sleep_interruptible n (max 0 (between_positions_delay t)) 0.05 ?w3
          = Some (0, ?w3\<lparr>clock := c'\<rparr>)" and c: "clock ?w3 \<le> c'" by blast
  from t(2) s have "between_positions n t ?w3 = Some (?w3\<lparr>clock := c'\<rparr>)"
    by (simp add: between_positions_def jittered_def)
  with q q3 g t(1) w1 have "click_position n x y g t w = Some (?w3\<lparr>clock := c'\<rparr>)"
    by (simp add: click_position_def random_offset_def quiet_def Let_def)
  with c show ?thesis by auto
qed

text \<open>A run whose target is reached by the first milestone, on a configuration without
  randomness: whatever the grid's dimensions and the durations, it visits position \<open>(0, 0)\<close>
  once and stops.\<close>

lemma visit_plain:
  assumes q: "quiet w" and t0: "0 \<le> clock w"
    and ra: "ra (0, 0) = Some 0" and pc: "per_position_clicks w (0, 0) = Some 0"
    and rs: "run_start_time w = Some started"
    and tg: "target_cycles cfg = Some goal"
            "goal \<le> start_cycles_done cfg + session_cycles_added w + 1"
    and b: "max 0 bt \<le> real nb * 0.05" and n: "nb + 2 \<le> n"
  shows "\<exists>w'. visit n (plain_grid a b' cd bt cfg) 0 0 (ra, w) = Some (Inr (True, ra, w'))
           \<and> stop_event w' \<and> clicked w' = clicked w @ [(clock w, 100, 200)]
           \<and> session_clicks w' = session_clicks w + 1
           \<and> per_position_clicks w' (0, 0) = Some 1
           \<and> run_start_time w' = Some started"
proof -
  let ?st = "plain_grid a b' cd bt cfg"
  let ?w2 = "w\<lparr>current_position := Some (0, 0)\<rparr>"
  from n obtain m where m: "n = Suc m" by (cases n) auto
  from q have w1: "wait_if_paused n 0.1 w = Some (0, w)"
    by (simp add: m quiet_def wait_if_paused_idle)
  from q have q2: "quiet ?w2" by (simp add: quiet_def)
  have g: "random_offset_px (grid ?st) \<le> 0" and t: "\<not> always_second_click (timing ?st)"
    "between_positions_jitter (timing ?st) \<le> 0"
    and b2: "max 0 (between_positions_delay (timing ?st)) \<le> real nb * 0.05"
    using b by (simp_all add: plain_grid_def)
  from click_position_plain [OF q2 g t b2 n, of 100 200] obtain c' where
    cp: "click_position n 100 200 (grid ?st) (timing ?st) ?w2
           = Some ((pyautogui_click 100 200 ?w2)\<lparr>clock := c'\<rparr>)" by blast
  let ?w4 = "(pyautogui_click 100 200 ?w2)\<lparr>clock := c'\<rparr>"
  have xy: "origin_x (grid ?st) + offset_dx (grid ?st) + 0 * step_x (grid ?st) = 100"
    "origin_y (grid ?st) + offset_dy (grid ?st) + 0 * step_y (grid ?st) = 200"
    by (simp_all add: plain_grid_def)
  have sc: "should_count_cycle 1 cfg = Inr True"
    by (simp add: should_count_cycle_def py_mod_def Let_def max_def)
  have cc: "\<exists>w'. count_click ?st 0 0 (ra, ?w4) = Inr (True, ra, w')
           \<and> stop_event w' \<and> clicked w' = clicked w @ [(clock w, 100, 200)]
           \<and> session_clicks w' = session_clicks w + 1
           \<and> per_position_clicks w' (0, 0) = Some 1
           \<and> run_start_time w' = Some started"
    using pc rs tg sc
    by (simp add: count_click_def plain_grid_def pyautogui_click_def maybe_pause_or_stop_def
          reached_def Let_def)
  from q t0 ra have v: "visit n ?st 0 0 (ra, w) = Some (count_click ?st 0 0 (ra, ?w4))"
    using w1 cp xy by (simp add: visit_def wait_for_def quiet_def Let_def)
  from cc v show ?thesis by auto
qed

lemma cycles_plain:
  assumes q: "quiet w" and t0: "0 \<le> clock w"
    and ra: "ra (0, 0) = Some 0" and pc: "per_position_clicks w (0, 0) = Some 0"
    and rs: "run_start_time w = Some started"
    and tg: "target_cycles cfg = Some goal"
            "goal \<le> start_cycles_done cfg + session_cycles_added w + 1"
    and b: "max 0 bt \<le> real nb * 0.05" and n: "nb + 3 \<le> n"
    and dims: "1 \<le> n_rows" "1 \<le> n_cols"
  shows "\<exists>w'. cycles n (plain_grid a b' cd bt cfg) n_rows n_cols (ra, w) = Some (Inr w')
           \<and> stop_event w' \<and> clicked w' = clicked w @ [(clock w, 100, 200)]
           \<and> session_clicks w' = session_clicks w + 1
           \<and> per_position_clicks w' (0, 0) = Some 1"
proof -
  let ?st = "plain_grid a b' cd bt cfg"
  from n obtain m where m: "n = Suc m" and nm: "nb + 2 \<le> m" by (cases n) auto
  from nm obtain k where k: "m = Suc k" by (cases m) auto
  from q have w1: "wait_if_paused m 0.1 w = Some (0, w)"
    by (simp add: k quiet_def wait_if_paused_idle)
  from visit_plain [where ra = ra and a = a and b' = b' and cd = cd, OF q t0 ra pc rs tg b nm]
  obtain w5 where
    v: "visit m ?st 0 0 (ra, w) = Some (Inr (True, ra, w5))" and s5: "stop_event w5"
    and c5: "clicked w5 = clicked w @ [(clock w, 100, 200)]"
    and k5: "session_clicks w5 = session_clicks w + 1"
    and p5: "per_position_clicks w5 (0, 0) = Some 1"
    and r5: "run_start_time w5 = Some started" by blast
  from range_upto_first [OF dims(1)] obtain rs' where rr: "range_upto n_rows = 0 # rs'" ..
  from range_upto_first [OF dims(2)] obtain cs' where cr: "range_upto n_cols = 0 # cs'" ..
  from v s5 have fr: "for_rows m ?st (range_upto n_rows) (range_upto n_cols) (ra, w)
                        = Some (Inr (ra, w5))"
    by (simp add: rr cr)
  from q w1 fr s5 r5 have
    "cycles n ?st n_rows n_cols (ra, w) =
       Some (Inr (stopped (w5\<lparr>cycle_times := cycle_times w5 @ [clock w5 - clock w],
                                session_active_time :=
                                  clock w5 - started - session_pause_time w5\<rparr>)))"
    by (simp add: m quiet_def Let_def)
  with s5 c5 k5 p5 show ?thesis by (simp add: stopped_def)
qed

lemma fuel_for: "\<exists>nb. max 0 (bt::real) \<le> real nb * 0.05"
proof -
  have "(0::real) < 0.05" by simp
  from ex_less_of_nat_mult [OF this, of "max 0 bt"] obtain nb where "max 0 bt < real nb * 0.05" ..
  then have "max 0 bt \<le> real nb * 0.05" by simp
  then show ?thesis ..
qed

lemma run_cycles_plain:
  assumes tg: "target_cycles cfg = Some goal" "goal \<le> start_cycles_done cfg + 1"
    and t0: "0 \<le> t0"
  shows "\<exists>n0. \<forall>n\<ge>n0. \<exists>w'.
           run_cycles n (plain_grid a b' cd bt cfg) (module_state t0 [] us) = Some (Inr w')
           \<and> stop_event w' \<and> clicked w' = [(t0, 100, 200)]
           \<and> session_clicks w' = 1 \<and> per_position_clicks w' (0, 0) = Some 1"
proof -
  from fuel_for obtain nb where nb: "max 0 bt \<le> real nb * 0.05" ..
  let ?st = "plain_grid a b' cd bt cfg"
  let ?nr = "max 1 (rows (grid ?st))" and ?nc = "max 1 (cols (grid ?st))"
  let ?w1 = "(module_state t0 [] us)\<lparr>per_position_clicks := grid_dict ?nr ?nc 0,
        cycle_times := [], session_clicks := 0, session_cycles_added := 0,
        session_pause_time := 0, session_active_time := 0,
        run_start_time := Some (clock (module_state t0 [] us))\<rparr>"
  have q: "quiet ?w1" and c: "0 \<le> clock ?w1"
    and pc: "per_position_clicks ?w1 (0, 0) = Some 0"
    and rs: "run_start_time ?w1 = Some t0"
    and g: "goal \<le> start_cycles_done cfg + session_cycles_added ?w1 + 1"
    and k: "clicked ?w1 = []" "session_clicks ?w1 = 0" "clock ?w1 = t0"
    using t0 tg(2) by (simp_all add: quiet_def module_state_def grid_dict_origin)
  have ra: "grid_dict ?nr ?nc (0::real) (0, 0) = Some 0"
    by (simp add: grid_dict_origin)
  have "\<exists>w'. run_cycles n ?st (module_state t0 [] us) = Some (Inr w')
           \<and> stop_event w' \<and> clicked w' = [(t0, 100, 200)]
           \<and> session_clicks w' = 1 \<and> per_position_clicks w' (0, 0) = Some 1"
    if n: "nb + 3 \<le> n" for n
  proof -
    have d: "1 \<le> ?nr" "1 \<le> ?nc" by simp_all
    from cycles_plain [where ra = "grid_dict ?nr ?nc 0" and a = a and b' = b' and cd = cd,
        OF q c ra pc rs tg(1) g nb n d] obtain w' where
      "cycles n ?st ?nr ?nc (grid_dict ?nr ?nc 0, ?w1) = Some (Inr w')"
      "stop_event w'" "clicked w' = clicked ?w1 @ [(clock ?w1, 100, 200)]"
      "session_clicks w' = session_clicks ?w1 + 1" "per_position_clicks w' (0, 0) = Some 1"
      by auto
    then show ?thesis
      unfolding k by (simp add: run_cycles_def Let_def)
  qed
  then show ?thesis by blast
qed

text \<open>
  C5, amended: Start rejects a run only when one is already active; it never inspects the
  configuration, so every other call begins the run. \<^verbatim>\<open>run_cycles\<close> clamps each grid
  dimension to at least \<open>1\<close>: a run with \<open>rows \<le> 0\<close> (or \<open>cols \<le> 0\<close>) is the run with that
  dimension set to \<open>1\<close>. A negative delay is clamped to \<open>0\<close> by \<^verbatim>\<open>jittered\<close>. The run does
  begin: on a configuration without randomness whose target is reached by the first
  milestone, whatever the grid's dimensions, the cooldown and the delay (zero and negative
  values included), the run returns, having clicked position \<open>(0, 0)\<close> once and counted it.
\<close>

theorem start_clamps_configuration:
  "start n True cancelled st w = Already_running
   \<and> start n False False st w = Ran (run_cycles n st (w\<lparr>stop_event := False, pause_event := False\<rparr>))
   \<and> (rows (grid st) \<le> 0 \<longrightarrow>
        run_cycles n st w = run_cycles n (st\<lparr>grid := (grid st)\<lparr>rows := 1\<rparr>\<rparr>) w)
   \<and> (cols (grid st) \<le> 0 \<longrightarrow>
        run_cycles n st w = run_cycles n (st\<lparr>grid := (grid st)\<lparr>cols := 1\<rparr>\<rparr>) w)
   \<and> 0 \<le> fst (jittered base jitter w)
   \<and> (base < 0 \<longrightarrow> jitter \<le> 0 \<longrightarrow> jittered base jitter w = (0, w))
   \<and> (target_cycles cfg = Some goal \<longrightarrow> goal \<le> start_cycles_done cfg + 1 \<longrightarrow> 0 \<le> t0 \<longrightarrow>
        (\<exists>n0. \<forall>n\<ge>n0. \<exists>w'.
           start n False False (plain_grid n_rows n_cols cooldown between cfg)
             (module_state t0 [] us) = Ran (Some (Inr w'))
           \<and> stop_event w' \<and> clicked w' = [(t0, 100, 200)]
           \<and> session_clicks w' = 1 \<and> per_position_clicks w' (0, 0) = Some 1))"
proof (intro conjI impI)
  show "start n True cancelled st w = Already_running"
    by (simp add: start_def)
  show "start n False False st w =
          Ran (run_cycles n st (w\<lparr>stop_event := False, pause_event := False\<rparr>))"
    by (simp add: start_def)
  show "0 \<le> fst (jittered base jitter w)"
    by (simp add: jittered_def split: prod.splits)
  show "jittered base jitter w = (0, w)" if "base < 0" "jitter \<le> 0"
    using that by (simp add: jittered_def)
next
  assume r: "rows (grid st) \<le> 0"
  have "same_but_dims st (st\<lparr>grid := (grid st)\<lparr>rows := 1\<rparr>\<rparr>)"
    by (rule rows_same)
  from cycles_dims [OF this] r
  show "run_cycles n st w = run_cycles n (st\<lparr>grid := (grid st)\<lparr>rows := 1\<rparr>\<rparr>) w"
    by (simp add: run_cycles_def)
next
  assume c: "cols (grid st) \<le> 0"
  have "same_but_dims st (st\<lparr>grid := (grid st)\<lparr>cols := 1\<rparr>\<rparr>)"
    by (rule cols_same)
  from cycles_dims [OF this] c
  show "run_cycles n st w = run_cycles n (st\<lparr>grid := (grid st)\<lparr>cols := 1\<rparr>\<rparr>) w"
    by (simp add: run_cycles_def)
next
  assume tg: "target_cycles cfg = Some goal" "goal \<le> start_cycles_done cfg + 1" and t0: "0 \<le> t0"
  have "(module_state t0 [] us)\<lparr>stop_event := False, pause_event := False\<rparr> = module_state t0 [] us"
    by (simp add: module_state_def)
  then have "start n False False (plain_grid n_rows n_cols cooldown between cfg)
               (module_state t0 [] us)
             = Ran (run_cycles n (plain_grid n_rows n_cols cooldown between cfg)
                      (module_state t0 [] us))" for n
    by (simp add: start_def)
  with run_cycles_plain [OF tg t0, of n_rows n_cols cooldown between us]
  show "\<exists>n0. \<forall>n\<ge>n0. \<exists>w'.
           start n False False (plain_grid n_rows n_cols cooldown between cfg)
             (module_state t0 [] us) = Ran (Some (Inr w'))
           \<and> stop_event w' \<and> clicked w' = [(t0, 100, 200)]
           \<and> session_clicks w' = 1 \<and> per_position_clicks w' (0, 0) = Some 1"
    by simp
qed

theorem start_clamps_configuration_witness:
  "(\<exists>n0. \<forall>n\<ge>n0. \<exists>w'.
      start n False False
        (plain_grid 0 (- 3) (- 1) (- 5) ((counters default_state)\<lparr>target_cycles := Some 1\<rparr>))
        (module_state 0 [] []) = Ran (Some (Inr w'))
      \<and> stop_event w' \<and> clicked w' = [(0, 100, 200)] \<and> session_clicks w' = 1)
   \<and> run_cycles 10 (plain_grid 0 2 1 0 ((counters default_state)\<lparr>target_cycles := Some 1\<rparr>))
         (module_state 0 [] [])
       = run_cycles 10 (plain_grid 1 2 1 0 ((counters default_state)\<lparr>target_cycles := Some 1\<rparr>))
           (module_state 0 [] [])
   \<and> run_cycles 10 (plain_grid 1 2 1 0 ((counters default_state)\<lparr>target_cycles := Some 1\<rparr>))
         (module_state 0 [] []) \<noteq> None
   \<and> jittered (- 5) 0 (module_state 0 [] []) = (0, module_state 0 [] [])"
proof -
  let ?cfg = "(counters default_state)\<lparr>target_cycles := Some 1\<rparr>"
  let ?W = "module_state 0 [] []"
  have h: "target_cycles ?cfg = Some 1" "1 \<le> start_cycles_done ?cfg + 1" "(0::real) \<le> 0"
    by (simp_all add: default_state_def)
  note inst = start_clamps_configuration
    [where st = "plain_grid 0 2 1 0 ?cfg" and w = ?W and n = 10 and cfg = ?cfg and goal = 1
       and ?t0.0 = 0 and n_rows = 0 and n_cols = "- 3" and cooldown = "- 1" and between = "- 5"
       and us = "[]" and base = "- 5" and jitter = 0]
  from inst h have 1: "\<exists>n0. \<forall>n\<ge>n0. \<exists>w'.
      start n False False (plain_grid 0 (- 3) (- 1) (- 5) ?cfg) ?W = Ran (Some (Inr w'))
      \<and> stop_event w' \<and> clicked w' = [(0, 100, 200)] \<and> session_clicks w' = 1"
    by blast
  have r: "rows (grid (plain_grid 0 2 1 0 ?cfg)) \<le> 0"
    by (simp add: plain_grid_def)
  have e: "(plain_grid 0 2 1 0 ?cfg)\<lparr>grid := (grid (plain_grid 0 2 1 0 ?cfg))\<lparr>rows := 1\<rparr>\<rparr>
             = plain_grid 1 2 1 0 ?cfg"
    by (simp add: plain_grid_def)
  from inst r have "run_cycles 10 (plain_grid 0 2 1 0 ?cfg) ?W
      = run_cycles 10 ((plain_grid 0 2 1 0 ?cfg)\<lparr>grid := (grid (plain_grid 0 2 1 0 ?cfg))\<lparr>rows := 1\<rparr>\<rparr>) ?W"
    by blast
  then have 2: "run_cycles 10 (plain_grid 0 2 1 0 ?cfg) ?W = run_cycles 10 (plain_grid 1 2 1 0 ?cfg) ?W"
    by (simp only: e)
  have "case run_cycles 10 (plain_grid 1 2 1 0 ?cfg) ?W of Some (Inr w) \<Rightarrow> True | _ \<Rightarrow> False"
    by code_simp
  then have 3: "run_cycles 10 (plain_grid 1 2 1 0 ?cfg) ?W \<noteq> None"
    by (auto split: option.splits)
  from inst have 4: "jittered (- 5) 0 ?W = (0, ?W)"
    by simp
  from 1 2 3 4 show ?thesis by blast
qed

end
